theory Spec2Isabelle
  imports Complex_Main "HOL-Library.Multiset" "HOL-Library.Monad_Syntax"
begin

section \<open>Cards and hands\<close>

text \<open>
  Numbers of the program are JavaScript numbers. Card values, hand totals and counters
  only ever hold small integers and are modelled as \<open>int\<close>; money amounts are modelled
  as \<open>rat\<close>, that is, with exact arithmetic.
\<close>

datatype suit = hearts | diamonds | clubs | spades

text \<open>The thirteen rank strings \<open>'A', '2', ..., '10', 'J', 'Q', 'K'\<close>.\<close>

datatype rank = RA | R2 | R3 | R4 | R5 | R6 | R7 | R8 | R9 | R10 | RJ | RQ | RK

text \<open>
  \<open>class Card\<close>: the fields \<open>value\<close> and \<open>display\<close> are assigned once, in the
  constructor, from \<open>suit\<close> and \<open>rank\<close> and never written again; \<open>card.value\<close> is
  therefore read as \<open>getCardValue\<close> of the card.
\<close>

record Card =
  suit :: suit
  rank :: rank

text \<open>
  \<open>parseInt(this.rank)\<close>. \<open>getCardValue\<close> calls it on the nine numeric rank strings
  only, and only those have an equation.
\<close>

fun parseInt :: "rank \<Rightarrow> int" where
  "parseInt R2 = 2"
| "parseInt R3 = 3"
| "parseInt R4 = 4"
| "parseInt R5 = 5"
| "parseInt R6 = 6"
| "parseInt R7 = 7"
| "parseInt R8 = 8"
| "parseInt R9 = 9"
| "parseInt R10 = 10"

definition getCardValue :: "Card \<Rightarrow> int" where
  "getCardValue c =
     (if rank c = RA then 11
      else if rank c \<in> set [RK, RQ, RJ] then 10
      else parseInt (rank c))"

definition isAce :: "Card \<Rightarrow> bool" where
  "isAce c = (rank c = RA)"

record Hand =
  cards :: "Card list"
  value_hand :: int
  softAces :: int
  isBlackjack :: bool
  isBust :: bool

definition new_Hand :: Hand where
  "new_Hand = \<lparr>cards = [], value_hand = 0, softAces = 0, isBlackjack = False, isBust = False\<rparr>"

text \<open>The \<open>for (const card of this.cards)\<close> loop of \<open>calculateValue\<close>, on the pair (value, softAces).\<close>

fun add_up :: "Card list \<Rightarrow> int \<times> int \<Rightarrow> int \<times> int" where
  "add_up [] (v, s) = (v, s)"
| "add_up (c # cs) (v, s) = add_up cs (v + getCardValue c, if isAce c then s + 1 else s)"

text \<open>The \<open>while (this.value > 21 && this.softAces > 0)\<close> loop.\<close>

function convert_aces :: "int \<Rightarrow> int \<Rightarrow> int \<times> int" where
  "convert_aces v s = (if v > 21 \<and> s > 0 then convert_aces (v - 10) (s - 1) else (v, s))"
  by pat_completeness auto
termination
  by (relation "measure (\<lambda>(v, s). nat s)") auto

declare convert_aces.simps [simp del]

definition calculateValue :: "Hand \<Rightarrow> Hand" where
  "calculateValue h =
     (let (v0, s0) = add_up (cards h) (0, 0);
          (v, s) = convert_aces v0 s0
      in h\<lparr>value_hand := v, softAces := s,
            isBlackjack := (v = 21 \<and> length (cards h) = 2),
            isBust := (v > 21)\<rparr>)"

definition addCard :: "Hand \<Rightarrow> Card \<Rightarrow> Hand" where
  "addCard h c = calculateValue (h\<lparr>cards := cards h @ [c]\<rparr>)"

text \<open>
  Reference quantities for a card sequence, stated independently of the code: the point
  table of the ranks (an ace 11, a face card 10, a numeric rank its number), the total with
  every ace counted as 11, the number of aces, and the total with every ace counted as 1.
\<close>

fun cardValue :: "rank \<Rightarrow> int" where
  "cardValue RA = 11"
| "cardValue R2 = 2"
| "cardValue R3 = 3"
| "cardValue R4 = 4"
| "cardValue R5 = 5"
| "cardValue R6 = 6"
| "cardValue R7 = 7"
| "cardValue R8 = 8"
| "cardValue R9 = 9"
| "cardValue R10 = 10"
| "cardValue RJ = 10"
| "cardValue RQ = 10"
| "cardValue RK = 10"

definition aces_high :: "Card list \<Rightarrow> int" where
  "aces_high cs = sum_list (map (\<lambda>c. cardValue (rank c)) cs)"

definition ace_count :: "Card list \<Rightarrow> int" where
  "ace_count cs = int (length (filter (\<lambda>c. rank c = RA) cs))"

definition aces_low :: "Card list \<Rightarrow> int" where
  "aces_low cs = aces_high cs - 10 * ace_count cs"

text \<open>The number of aces the reduction loop turns from 11 into 1.\<close>

definition reduced :: "Card list \<Rightarrow> int" where
  "reduced cs = min (ace_count cs) (max 0 ((aces_high cs - 12) div 10))"

section \<open>Chips\<close>

text \<open>
  \<open>class Chip\<close>. The field \<open>id\<close>, a DOM identifier formatted from the value, is read by
  the rendering code only and is left out.
\<close>

record Chip =
  value_chip :: rat
  color :: string
  label :: string
  count_chip :: int
  selected :: int

definition new_Chip :: "rat \<Rightarrow> string \<Rightarrow> string \<Rightarrow> Chip" where
  "new_Chip v c l = \<lparr>value_chip = v, color = c, label = l, count_chip = 50, selected = 0\<rparr>"

definition canSelect :: "Chip \<Rightarrow> bool" where
  "canSelect c = (count_chip c > selected c)"

text \<open>The mutating methods return the method's result together with the chip afterwards.\<close>

definition select :: "Chip \<Rightarrow> bool \<times> Chip" where
  "select c = (if canSelect c then (True, c\<lparr>selected := selected c + 1\<rparr>) else (False, c))"

definition deselect :: "Chip \<Rightarrow> bool \<times> Chip" where
  "deselect c = (if selected c > 0 then (True, c\<lparr>selected := selected c - 1\<rparr>) else (False, c))"

definition getSelectedValue :: "Chip \<Rightarrow> rat" where
  "getSelectedValue c = value_chip c * of_int (selected c)"

definition resetSelection :: "Chip \<Rightarrow> Chip" where
  "resetSelection c = c\<lparr>selected := 0\<rparr>"

text \<open>The chips of \<open>ChipManager\<close>, in the order of its constructor.\<close>

definition ChipManager_chips :: "Chip list" where
  "ChipManager_chips =
     [new_Chip 1 ''chip-1'' ''$1'',
      new_Chip (5 / 2) ''chip-2-50'' ''$2.50'',
      new_Chip 5 ''chip-5'' ''$5'',
      new_Chip 25 ''chip-25'' ''$25'',
      new_Chip 100 ''chip-100'' ''$100'',
      new_Chip 500 ''chip-500'' ''$500'',
      new_Chip 1000 ''chip-1000'' ''$1000'']"

text \<open>The selection invariant of a chip.\<close>

definition chip_inv :: "Chip \<Rightarrow> bool" where
  "chip_inv c = (0 \<le> selected c \<and> selected c \<le> count_chip c)"

section \<open>Session score\<close>

text \<open>
  \<open>class GameState\<close>, with the fields that \<open>recordCorrect\<close>, \<open>recordIncorrect\<close> and
  \<open>completeScenario\<close> read or write; the functions are defined on every extension of the
  record, so all other fields are left as they are. \<open>averageTime\<close> is a quotient that
  JavaScript evaluates to \<open>Infinity\<close> or \<open>NaN\<close> when the divisor is 0: \<open>None\<close> stands
  for a number that is not finite. \<open>updateScoreDisplay\<close> and \<open>saveProgress\<close> only read
  the state (they write to the page and to \<open>localStorage\<close>) and do not appear.
  \<open>Date.now()\<close> is the parameter \<open>now\<close>.
\<close>

record score =
  correct :: int
  total :: int
  accuracy :: int

record sessionStats =
  startTime :: int
  scenariosCompleted :: int
  averageTime :: "rat option"
  bestStreak :: int
  currentStreak :: int

record GameState =
  score :: score
  sessionStats :: sessionStats
  gamePhase :: string
  scenarioStartTime :: "int option"

definition updateSessionStats :: "int \<Rightarrow> 'a GameState_scheme \<Rightarrow> 'a GameState_scheme" where
  "updateSessionStats timeSpent g =
     (let st = sessionStats g;
          totalTime = map_option
            (\<lambda>a. a * of_int (scenariosCompleted st - 1) + of_int timeSpent) (averageTime st)
      in g\<lparr>sessionStats := st\<lparr>averageTime :=
           (case totalTime of
              None \<Rightarrow> None
            | Some t \<Rightarrow> if scenariosCompleted st = 0 then None
                       else Some (t / of_int (scenariosCompleted st)))\<rparr>\<rparr>)"

definition completeScenario :: "int \<Rightarrow> 'a GameState_scheme \<Rightarrow> 'a GameState_scheme" where
  "completeScenario now g =
     (let g1 = (case scenarioStartTime g of
                  None \<Rightarrow> g
                | Some t0 \<Rightarrow> if t0 \<noteq> 0 then updateSessionStats (now - t0) g else g);
          st = sessionStats g1
      in g1\<lparr>sessionStats := st\<lparr>scenariosCompleted := scenariosCompleted st + 1\<rparr>,
            gamePhase := ''waiting''\<rparr>)"

definition recordCorrect :: "int \<Rightarrow> 'a GameState_scheme \<Rightarrow> 'a GameState_scheme" where
  "recordCorrect now g =
     (let sc = score g;
          g1 = g\<lparr>score := sc\<lparr>correct := correct sc + 1, total := total sc + 1\<rparr>\<rparr>;
          st = sessionStats g1;
          st1 = st\<lparr>currentStreak := currentStreak st + 1\<rparr>;
          st2 = (if currentStreak st1 > bestStreak st1
                 then st1\<lparr>bestStreak := currentStreak st1\<rparr> else st1)
      in completeScenario now (g1\<lparr>sessionStats := st2\<rparr>))"

definition recordIncorrect :: "'a GameState_scheme \<Rightarrow> 'a GameState_scheme" where
  "recordIncorrect g =
     (let sc = score g;
          g1 = g\<lparr>score := sc\<lparr>total := total sc + 1\<rparr>\<rparr>
      in g1\<lparr>sessionStats := (sessionStats g1)\<lparr>currentStreak := 0\<rparr>\<rparr>)"

text \<open>The state the constructor builds when nothing is loaded from storage.\<close>

definition new_GameState :: "int \<Rightarrow> GameState" where
  "new_GameState now =
     \<lparr>score = \<lparr>correct = 0, total = 0, accuracy = 0\<rparr>,
      sessionStats = \<lparr>startTime = now, scenariosCompleted = 0, averageTime = Some 0,
                      bestStreak = 0, currentStreak = 0\<rparr>,
      gamePhase = ''waiting'', scenarioStartTime = None\<rparr>"

section \<open>Payout rules and validation\<close>

text \<open>
  \<open>calculatePayout\<close> and \<open>validatePayout\<close> read \<open>betAmount\<close> and \<open>result\<close> of whatever
  object they are given (the tests pass plain objects with these two fields); they are
  defined on every extension of the record \<open>scenario\<close>. A \<open>null\<close> or missing scenario
  is \<open>None\<close>.
\<close>

record scenario =
  betAmount :: rat
  result :: string

definition payoutRules_win :: rat where
  "payoutRules_win = 1"

definition tolerance :: rat where
  "tolerance = 1 / 100"

definition calculatePayout :: "'a scenario_scheme option \<Rightarrow> rat" where
  "calculatePayout scenario =
     (case scenario of
        None \<Rightarrow> 0
      | Some sc \<Rightarrow>
          if result sc = ''blackjack'' then betAmount sc * (3 / 2)
          else if result sc = ''win'' then betAmount sc * payoutRules_win
          else if result sc = ''push'' then 0
          else if result sc = ''lose'' then 0
          else 0)"

text \<open>
  Message texts: a template literal is the list of its pieces. \<open>Num x\<close> is the default
  rendering of the number \<open>x\<close>, \<open>Fixed2 x\<close> is \<open>x.toFixed(2)\<close>, and \<open>Sym n\<close> is the
  character with code point \<open>n\<close> (9989 and 10060 are the check and cross marks, 215 the
  multiplication sign).
\<close>

datatype piece = Str string | Sym nat | Num rat | Fixed2 rat

definition getSuccessMessage :: "string \<Rightarrow> rat \<Rightarrow> rat \<Rightarrow> piece list" where
  "getSuccessMessage res bet correctAmt =
     (if res = ''blackjack'' then
        [Sym 9989, Str '' Correct! Blackjack pays 3:2. $'', Num bet, Str '' '', Sym 215,
         Str '' 1.5 = $'', Fixed2 correctAmt]
      else if res = ''win'' then
        [Sym 9989, Str '' Correct! Regular win pays 1:1. $'', Num bet, Str '' '', Sym 215,
         Str '' 1 = $'', Fixed2 correctAmt]
      else if res = ''push'' then
        [Sym 9989, Str '' Correct! Push means no additional payout (return original bet only).'']
      else if res = ''lose'' then
        [Sym 9989, Str '' Correct! House wins - no payout needed.'']
      else [Sym 9989, Str '' Correct payout!''])"

definition getErrorMessage :: "string \<Rightarrow> rat \<Rightarrow> rat \<Rightarrow> rat \<Rightarrow> piece list" where
  "getErrorMessage res bet selectedAmt correctAmt =
     (let diff = selectedAmt - correctAmt;
          overUnder = (if diff > 0 then ''over'' else ''under'');
          explanation =
            (if res = ''blackjack'' then
               [Str ''Blackjack pays 3:2. Calculate: $'', Num bet, Str '' '', Sym 215,
                Str '' 1.5 = $'', Fixed2 correctAmt]
             else if res = ''win'' then
               [Str ''Regular win pays 1:1. Calculate: $'', Num bet, Str '' '', Sym 215,
                Str '' 1 = $'', Fixed2 correctAmt]
             else if res = ''push'' then
               [Str ''Push means no additional payout. Only return the original bet.'']
             else if res = ''lose'' then
               [Str ''House wins - no payout is made.'']
             else [])
      in [Sym 10060, Str '' Incorrect. You selected $'', Fixed2 selectedAmt,
          Str '' but the correct payout is $'', Fixed2 correctAmt,
          Str '' ('', Str overUnder, Str '' by $'', Fixed2 \<bar>diff\<bar>, Str ''). '']
         @ explanation)"

definition getValidationMessage ::
  "'a scenario_scheme \<Rightarrow> rat \<Rightarrow> rat \<Rightarrow> bool \<Rightarrow> piece list" where
  "getValidationMessage sc selectedAmt correctAmt ok =
     (if ok then getSuccessMessage (result sc) (betAmount sc) correctAmt
      else getErrorMessage (result sc) (betAmount sc) selectedAmt correctAmt)"

text \<open>
  The object \<open>validatePayout\<close> returns; a field the returned object does not have is
  \<open>None\<close>.
\<close>

record validation =
  isCorrect :: bool
  correctAmount :: "rat option"
  selectedAmount :: "rat option"
  difference :: "rat option"
  message :: "piece list"

definition validatePayout :: "'a scenario_scheme option \<Rightarrow> rat \<Rightarrow> validation" where
  "validatePayout scenario selectedAmt =
     (case scenario of
        None \<Rightarrow> \<lparr>isCorrect = False, correctAmount = None, selectedAmount = None,
                 difference = None, message = [Str ''No scenario provided'']\<rparr>
      | Some sc \<Rightarrow>
          (let correctPayout = calculatePayout scenario;
               ok = (\<bar>selectedAmt - correctPayout\<bar> < tolerance)
           in \<lparr>isCorrect = ok, correctAmount = Some correctPayout,
               selectedAmount = Some selectedAmt,
               difference = Some (selectedAmt - correctPayout),
               message = getValidationMessage sc selectedAmt correctPayout ok\<rparr>))"

section \<open>Chip decomposition\<close>

text \<open>
  \<open>Math.floor\<close> is \<open>\<lfloor>_\<rfloor>\<close>; \<open>Math.round\<close> rounds to the nearest integer, a half
  upwards. The amounts the program decomposes are multiples of 0.5 of moderate size, on
  which the floating-point operations of the source are exact, so exact arithmetic gives
  the same results. (A chip of value 0 would make the quotient infinite in JavaScript; no
  chip set of the program contains one.)
\<close>

definition Math_round :: "rat \<Rightarrow> int" where
  "Math_round x = \<lfloor>x + 1 / 2\<rfloor>"

text \<open>An amount that is a whole number of cents.\<close>

definition is_cents :: "rat \<Rightarrow> bool" where
  "is_cents x = (of_int \<lfloor>x * 100\<rfloor> = x * 100)"

text \<open>An element \<open>{ chip, count }\<close> of the list \<open>calculateOptimalChips\<close> returns.\<close>

record chipItem =
  chip :: Chip
  count_item :: int

text \<open>The \<open>for (const chip of sortedChips)\<close> loop, on the pair (result, remaining).\<close>

fun optimal_loop :: "Chip list \<Rightarrow> chipItem list \<times> rat \<Rightarrow> chipItem list \<times> rat" where
  "optimal_loop [] (res, remaining) = (res, remaining)"
| "optimal_loop (c # cs) (res, remaining) =
     (let count = \<lfloor>remaining / value_chip c\<rfloor>
      in if count > 0
         then optimal_loop cs
                (res @ [\<lparr>chip = c, count_item = count\<rparr>],
                 of_int (Math_round ((remaining - of_int count * value_chip c) * 100)) / 100)
         else optimal_loop cs (res, remaining))"

text \<open>
  \<open>[...availableChips].sort((a, b) => b.value - a.value)\<close> is a stable sort by
  descending value: a stable sort by ascending negated value. \<open>null\<close> is \<open>None\<close>.
\<close>

definition calculateOptimalChips :: "rat \<Rightarrow> Chip list \<Rightarrow> chipItem list option" where
  "calculateOptimalChips payoutAmount availableChips =
     (if payoutAmount \<le> 0 then Some []
      else
        (let sortedChips = sort_key (\<lambda>c. - value_chip c) availableChips;
             (res, remaining) = optimal_loop sortedChips ([], payoutAmount)
         in if remaining < tolerance then Some res else None))"

text \<open>The literal objects of \<open>calculateBetChips\<close> and the elements of its result.\<close>

record chipType =
  value_type :: rat
  color_type :: string
  label_type :: string

record betChip =
  value_bet :: rat
  color_bet :: string
  label_bet :: string
  count_bet :: int

definition chipDenominations :: "chipType list" where
  "chipDenominations =
     [\<lparr>value_type = 1000, color_type = ''chip-1000'', label_type = ''$1K''\<rparr>,
      \<lparr>value_type = 500, color_type = ''chip-500'', label_type = ''$500''\<rparr>,
      \<lparr>value_type = 100, color_type = ''chip-100'', label_type = ''$100''\<rparr>,
      \<lparr>value_type = 25, color_type = ''chip-25'', label_type = ''$25''\<rparr>,
      \<lparr>value_type = 5, color_type = ''chip-5'', label_type = ''$5''\<rparr>,
      \<lparr>value_type = 5 / 2, color_type = ''chip-2-50'', label_type = ''$2.50''\<rparr>,
      \<lparr>value_type = 1, color_type = ''chip-1'', label_type = ''$1''\<rparr>]"

fun bet_loop :: "chipType list \<Rightarrow> betChip list \<times> rat \<Rightarrow> betChip list \<times> rat" where
  "bet_loop [] (res, remaining) = (res, remaining)"
| "bet_loop (t # ts) (res, remaining) =
     (let count0 = \<lfloor>remaining / value_type t\<rfloor>;
          count =
            (if value_type t = 25 \<and> count0 > 0 then min count0 \<lfloor>remaining / 25\<rfloor>
             else if value_type t = 5 \<and> count0 > 0 then min count0 \<lfloor>remaining / 5\<rfloor>
             else count0)
      in if count > 0
         then bet_loop ts
                (res @ [\<lparr>value_bet = value_type t, color_bet = color_type t,
                         label_bet = label_type t, count_bet = count\<rparr>],
                 of_int (Math_round ((remaining - of_int count * value_type t) * 100)) / 100)
         else bet_loop ts (res, remaining))"

definition calculateBetChips :: "rat \<Rightarrow> betChip list" where
  "calculateBetChips betAmt = fst (bet_loop chipDenominations ([], betAmt))"

text \<open>The (denomination value, count) pairs of the two kinds of result.\<close>

definition item_pairs :: "chipItem list \<Rightarrow> (rat \<times> int) list" where
  "item_pairs r = map (\<lambda>i. (value_chip (chip i), count_item i)) r"

definition bet_pairs :: "betChip list \<Rightarrow> (rat \<times> int) list" where
  "bet_pairs r = map (\<lambda>b. (value_bet b, count_bet b)) r"

text \<open>The amount a list of (value, count) pairs adds up to.\<close>

definition pairs_total :: "(rat \<times> int) list \<Rightarrow> rat" where
  "pairs_total ps = sum_list (map (\<lambda>(v, n). v * of_int n) ps)"

section \<open>Scenario generation\<close>

text \<open>
  \<open>Math.random()\<close> returns a number \<open>r\<close> with \<open>0 \<le> r < 1\<close>. The random source is a
  sequence \<open>rnd\<close> of rationals, and the call number \<open>k\<close> returns the fractional part of
  \<open>rnd k\<close>, so every sequence describes a run and every value in the range can occur;
  the state counts the calls made so far in \<open>drawn\<close>.
\<close>

definition Math_random :: "rat \<Rightarrow> rat" where
  "Math_random x = x - of_int \<lfloor>x\<rfloor>"

record ScenarioManager =
  deck :: "Card list"
  drawn :: nat

definition betAmounts :: "rat list" where
  "betAmounts =
     [5, 10, 15, 20, 25, 30, 35, 40, 50, 60, 75, 100, 125, 150, 200, 250, 300, 500,
      7, 12, 17, 22, 27, 32, 37, 42, 47, 52, 67, 72, 87, 92, 107, 117, 137, 147, 167, 177]"

definition suits :: "suit list" where
  "suits = [hearts, diamonds, clubs, spades]"

definition ranks :: "rank list" where
  "ranks = [RA, R2, R3, R4, R5, R6, R7, R8, R9, R10, RJ, RQ, RK]"

definition initializeDeck :: "ScenarioManager \<Rightarrow> ScenarioManager" where
  "initializeDeck m =
     m\<lparr>deck := concat (map (\<lambda>s. map (\<lambda>r. \<lparr>suit = s, rank = r\<rparr>) ranks) suits)\<rparr>"

definition new_ScenarioManager :: ScenarioManager where
  "new_ScenarioManager = initializeDeck \<lparr>deck = [], drawn = 0\<rparr>"

text \<open>
  \<open>for (let i = this.deck.length - 1; i > 0; i--)\<close>: the first argument is \<open>i\<close>. The
  destructuring swap reads both elements before it writes them.
\<close>

fun shuffle_loop :: "(nat \<Rightarrow> rat) \<Rightarrow> nat \<Rightarrow> ScenarioManager \<Rightarrow> ScenarioManager" where
  "shuffle_loop rnd 0 m = m"
| "shuffle_loop rnd (Suc k) m =
     (let i = Suc k;
          j = nat \<lfloor>Math_random (rnd (drawn m)) * of_nat (i + 1)\<rfloor>;
          d = deck m
      in shuffle_loop rnd k (m\<lparr>deck := d[i := d ! j, j := d ! i], drawn := Suc (drawn m)\<rparr>))"

definition shuffleDeck :: "(nat \<Rightarrow> rat) \<Rightarrow> ScenarioManager \<Rightarrow> ScenarioManager" where
  "shuffleDeck rnd m = shuffle_loop rnd (length (deck m) - 1) m"

text \<open>
  \<open>this.deck.pop()\<close> on an empty deck returns \<open>undefined\<close>, and the caller's next read
  of \<open>.value\<close> throws a TypeError: that failure is \<open>None\<close>.
\<close>

definition dealCard :: "(nat \<Rightarrow> rat) \<Rightarrow> ScenarioManager \<Rightarrow> (Card \<times> ScenarioManager) option" where
  "dealCard rnd m =
     (let m1 = (if length (deck m) < 10 then shuffleDeck rnd (initializeDeck m) else m)
      in if deck m1 = [] then None
         else Some (last (deck m1), m1\<lparr>deck := butlast (deck m1)\<rparr>))"

text \<open>
  \<open>Array.prototype.indexOf\<close> returns \<open>-1\<close> when the element is absent. It compares
  object identities; the cards of a deck are pairwise different as (suit, rank) pairs, and
  the element searched for is the first one of its rank class, so comparing the pairs finds
  the same index.
\<close>

fun indexOf :: "'a list \<Rightarrow> 'a \<Rightarrow> int" where
  "indexOf [] x = - 1"
| "indexOf (y # ys) x =
     (if y = x then 0 else (let k = indexOf ys x in if k < 0 then - 1 else k + 1))"

text \<open>
  \<open>xs.splice(start, 1)[0]\<close>: a negative \<open>start\<close> counts from the end, a \<open>start\<close> past
  the end removes nothing, and then element 0 of the removed array is \<open>undefined\<close> (\<open>None\<close>).
\<close>

definition splice1 :: "int \<Rightarrow> 'a list \<Rightarrow> 'a option \<times> 'a list" where
  "splice1 start xs =
     (let n = int (length xs);
          k = (if start < 0 then max (n + start) 0 else min start n)
      in if k < n then (Some (xs ! nat k), take (nat k) xs @ drop (nat k + 1) xs)
         else (None, xs))"

text \<open>The part of \<open>generateScenario\<close> that deals the player's hand.\<close>

definition deal_player :: "ScenarioManager \<Rightarrow> (Hand \<times> ScenarioManager) option" where
  "deal_player m =
     (let aceCards = filter (\<lambda>card. rank card = RA) (deck m);
          tenCards = filter (\<lambda>card. rank card \<in> set [R10, RJ, RQ, RK]) (deck m)
      in if length aceCards > 0 \<and> length tenCards > 0 then
           (let aceIndex = indexOf (deck m) (aceCards ! 0);
                (ace, d1) = splice1 aceIndex (deck m)
            in case ace of
                 None \<Rightarrow> None
               | Some a \<Rightarrow>
                   (let h1 = addCard new_Hand a;
                        tenIndex = indexOf d1 (tenCards ! 0);
                        (ten, d2) = splice1 tenIndex d1
                    in case ten of
                         None \<Rightarrow> None
                       | Some t \<Rightarrow> Some (addCard h1 t, m\<lparr>deck := d2\<rparr>)))
         else
           Some (addCard (addCard new_Hand \<lparr>suit = hearts, rank = RA\<rparr>)
                   \<lparr>suit = spades, rank = RK\<rparr>, m))"

text \<open>
  The loop \<open>while (dealerHand.cards[0].value === 11 && secondCard.value === 10)\<close>. A
  loop that may not end is a partial function into \<open>option\<close>; that both loops of
  \<open>generateScenario\<close> do end is proved below.
\<close>

partial_function (option) redraw ::
  "(nat \<Rightarrow> rat) \<Rightarrow> Hand \<Rightarrow> Card \<Rightarrow> ScenarioManager \<Rightarrow> (Card \<times> ScenarioManager) option" where
  "redraw rnd dealer secondCard m =
     (if getCardValue (cards dealer ! 0) = 11 \<and> getCardValue secondCard = 10
      then Option.bind (dealCard rnd m) (\<lambda>(c, m'). redraw rnd dealer c m')
      else Some (secondCard, m))"

declare redraw.simps [code]

text \<open>The loop \<open>while (dealerHand.value < 17 && !dealerHand.isBust)\<close>.\<close>

partial_function (option) dealer_play ::
  "(nat \<Rightarrow> rat) \<Rightarrow> Hand \<Rightarrow> ScenarioManager \<Rightarrow> (Hand \<times> ScenarioManager) option" where
  "dealer_play rnd dealer m =
     (if value_hand dealer < 17 \<and> \<not> isBust dealer
      then Option.bind (dealCard rnd m) (\<lambda>(c, m'). dealer_play rnd (addCard dealer c) m')
      else Some (dealer, m))"

declare dealer_play.simps [code]

text \<open>\<open>class BlackjackScenario\<close>.\<close>

record BlackjackScenario = scenario +
  playerHand :: Hand
  dealerHand :: Hand
  correctPayout :: rat
  payoutRatio :: string

definition determineResult :: string where
  "determineResult = ''blackjack''"

definition calculateCorrectPayout :: "rat \<Rightarrow> rat" where
  "calculateCorrectPayout bet = bet * (3 / 2)"

definition getPayoutRatio :: "string \<Rightarrow> string" where
  "getPayoutRatio res =
     (if res = ''blackjack'' then ''3:2''
      else if res = ''win'' then ''1:1''
      else if res = ''push'' then ''Push''
      else if res = ''lose'' then ''Lose''
      else ''Unknown'')"

definition new_BlackjackScenario :: "Hand \<Rightarrow> Hand \<Rightarrow> rat \<Rightarrow> BlackjackScenario" where
  "new_BlackjackScenario ph dh bet =
     \<lparr>betAmount = bet, result = determineResult, playerHand = ph, dealerHand = dh,
      correctPayout = calculateCorrectPayout bet, payoutRatio = getPayoutRatio determineResult\<rparr>"

definition generateScenario ::
  "(nat \<Rightarrow> rat) \<Rightarrow> ScenarioManager \<Rightarrow> (BlackjackScenario \<times> ScenarioManager) option" where
  "generateScenario rnd m0 =
     do {
       let m1 = shuffleDeck rnd m0;
       (player, m2) \<leftarrow> deal_player m1;
       (c1, m3) \<leftarrow> dealCard rnd m2;
       let dealer1 = addCard new_Hand c1;
       (c2, m4) \<leftarrow> dealCard rnd m3;
       (secondCard, m5) \<leftarrow> redraw rnd dealer1 c2 m4;
       let dealer2 = addCard dealer1 secondCard;
       (dealer, m6) \<leftarrow> dealer_play rnd dealer2 m5;
       let betAmt = betAmounts !
             nat \<lfloor>Math_random (rnd (drawn m6)) * of_nat (length betAmounts)\<rfloor>;
       Some (new_BlackjackScenario player dealer betAmt, m6\<lparr>drawn := Suc (drawn m6)\<rparr>)
     }"

text \<open>
  Two random sources for concrete runs. With 127/128 at every call each shuffle step swaps
  an element with itself and the last bet amount is picked; \<open>rnd_swap\<close> returns 25/32
  at the second call, which swaps the cards at positions 50 and 39 of the deck.
\<close>

definition rnd_plain :: "nat \<Rightarrow> rat" where
  "rnd_plain k = 127 / 128"

definition rnd_swap :: "nat \<Rightarrow> rat" where
  "rnd_swap k = (if k = 1 then 25 / 32 else 127 / 128)"

text \<open>A ten-valued card, as the redraw loop tests it.\<close>

definition is_ten :: "Card \<Rightarrow> bool" where
  "is_ten c = (getCardValue c = 10)"

section \<open>Hand values\<close>

lemma getCardValue_cardValue: "getCardValue c = cardValue (rank c)"
  by (cases "rank c") (simp_all add: getCardValue_def)

lemma add_up_eq: "add_up cs (v, s) = (v + aces_high cs, s + ace_count cs)"
  by (induction cs arbitrary: v s)
    (simp_all add: aces_high_def ace_count_def getCardValue_cardValue isAce_def)

lemma convert_aces_eq:
  "0 \<le> s \<Longrightarrow> convert_aces v s =
     (v - 10 * min s (max 0 ((v - 12) div 10)), s - min s (max 0 ((v - 12) div 10)))"
proof (induction v s rule: convert_aces.induct)
  case (1 v s)
  show ?case
  proof (cases "v > 21 \<and> s > 0")
    case True
    then have ih: "convert_aces (v - 10) (s - 1) =
        (v - 10 - 10 * min (s - 1) (max 0 ((v - 10 - 12) div 10)),
         s - 1 - min (s - 1) (max 0 ((v - 10 - 12) div 10)))"
      using "1.IH" by simp
    have d: "(v - 12) div 10 = (v - 10 - 12) div 10 + 1" by presburger
    have p: "0 \<le> (v - 10 - 12) div 10" using True by presburger
    show ?thesis
      using True by (subst convert_aces.simps) (simp add: ih d p min_def max_def)
  next
    case False
    then have "s = 0 \<or> (v - 12) div 10 \<le> 0" using "1.prems" by presburger
    then show ?thesis
      using False "1.prems" by (subst convert_aces.simps) (auto simp: min_def max_def)
  qed
qed

lemma ace_count_nonneg: "0 \<le> ace_count cs"
  by (simp add: ace_count_def)

lemma calculateValue_eq:
  "calculateValue h =
     h\<lparr>value_hand := aces_high (cards h) - 10 * reduced (cards h),
       softAces := ace_count (cards h) - reduced (cards h),
       isBlackjack := (aces_high (cards h) - 10 * reduced (cards h) = 21 \<and> length (cards h) = 2),
       isBust := (aces_high (cards h) - 10 * reduced (cards h) > 21)\<rparr>"
  by (simp add: calculateValue_def add_up_eq convert_aces_eq ace_count_nonneg reduced_def)

lemma reduced_bounds: "0 \<le> reduced cs \<and> reduced cs \<le> ace_count cs"
  by (simp add: reduced_def ace_count_nonneg)

lemma reduced_while:
  "0 \<le> j \<Longrightarrow> j < reduced cs \<Longrightarrow> 21 < aces_high cs - 10 * j"
  unfolding reduced_def by (simp add: min_def max_def split: if_splits)

lemma reduced_stop:
  "reduced cs = ace_count cs \<or> aces_high cs - 10 * reduced cs \<le> 21"
  unfolding reduced_def by (simp add: min_def max_def) presburger

text \<open>
  Claim C6. For every non-empty sequence of cards, \<open>calculateValue\<close> sets the value to the
  sum of the card values (aces 11, faces 10, numeric ranks their number) less 10 for each
  of \<open>reduced\<close> aces, where a reduction only happens while the running sum exceeds 21, and
  the loop stops when no soft ace is left or the sum is at most 21; the number of soft aces
  left is the number of aces less the reduced ones. The result does not depend on the
  value, soft-ace count or flags stored before. The final value lies between the
  all-aces-low and the all-aces-high sum, it exceeds 21 only if the all-aces-low sum does,
  and \<open>isBust\<close> holds exactly when the final value exceeds 21.
\<close>

theorem calculateValue_soft_ace_resolution:
  assumes "cards h \<noteq> []"
  shows "value_hand (calculateValue h) = aces_high (cards h) - 10 * reduced (cards h)
    \<and> softAces (calculateValue h) = ace_count (cards h) - reduced (cards h)
    \<and> 0 \<le> reduced (cards h) \<and> reduced (cards h) \<le> ace_count (cards h)
    \<and> (\<forall>j. 0 \<le> j \<and> j < reduced (cards h) \<longrightarrow> 21 < aces_high (cards h) - 10 * j)
    \<and> (softAces (calculateValue h) = 0 \<or> value_hand (calculateValue h) \<le> 21)
    \<and> calculateValue (h\<lparr>value_hand := v, softAces := s, isBlackjack := b, isBust := b'\<rparr>)
          = calculateValue h
    \<and> aces_low (cards h) \<le> value_hand (calculateValue h)
    \<and> value_hand (calculateValue h) \<le> aces_high (cards h)
    \<and> (21 < value_hand (calculateValue h) \<longrightarrow>
          value_hand (calculateValue h) = aces_low (cards h))
    \<and> (aces_low (cards h) \<le> 21 \<longrightarrow> value_hand (calculateValue h) \<le> 21)
    \<and> (isBust (calculateValue h) \<longleftrightarrow> 21 < value_hand (calculateValue h))"
proof -
  let ?cs = "cards h"
  have b: "0 \<le> reduced ?cs" "reduced ?cs \<le> ace_count ?cs"
    using reduced_bounds [of ?cs] by simp_all
  have st: "reduced ?cs = ace_count ?cs \<or> aces_high ?cs - 10 * reduced ?cs \<le> 21"
    by (rule reduced_stop)
  have v: "value_hand (calculateValue h) = aces_high ?cs - 10 * reduced ?cs"
    by (simp add: calculateValue_eq)
  have sa: "softAces (calculateValue h) = ace_count ?cs - reduced ?cs"
    by (simp add: calculateValue_eq)
  have bu: "isBust (calculateValue h) \<longleftrightarrow> 21 < value_hand (calculateValue h)"
    by (simp add: calculateValue_eq)
  have anew: "calculateValue (h\<lparr>value_hand := v, softAces := s, isBlackjack := b, isBust := b'\<rparr>)
      = calculateValue h"
    by (simp add: calculateValue_eq)
  have wh: "\<forall>j. 0 \<le> j \<and> j < reduced ?cs \<longrightarrow> 21 < aces_high ?cs - 10 * j"
    using reduced_while by blast
  have lo: "aces_low ?cs \<le> value_hand (calculateValue h)"
    using b by (simp add: v aces_low_def)
  have hi: "value_hand (calculateValue h) \<le> aces_high ?cs"
    using b by (simp add: v)
  have stop: "softAces (calculateValue h) = 0 \<or> value_hand (calculateValue h) \<le> 21"
    using st by (auto simp: v sa)
  have bust_low: "21 < value_hand (calculateValue h) \<longrightarrow>
      value_hand (calculateValue h) = aces_low ?cs"
    using st by (auto simp: v aces_low_def)
  have low_ok: "aces_low ?cs \<le> 21 \<longrightarrow> value_hand (calculateValue h) \<le> 21"
    using bust_low by auto
  show ?thesis
    using v sa b wh stop anew lo hi bust_low low_ok bu by blast
qed

theorem calculateValue_soft_ace_resolution_witness:
  "cards (new_Hand\<lparr>cards := [\<lparr>suit = hearts, rank = RA\<rparr>, \<lparr>suit = spades, rank = R6\<rparr>,
       \<lparr>suit = clubs, rank = R8\<rparr>]\<rparr>) \<noteq> []
   \<and> value_hand (calculateValue (new_Hand\<lparr>cards := [\<lparr>suit = hearts, rank = RA\<rparr>,
       \<lparr>suit = spades, rank = R6\<rparr>, \<lparr>suit = clubs, rank = R8\<rparr>]\<rparr>)) = 15
   \<and> softAces (calculateValue (new_Hand\<lparr>cards := [\<lparr>suit = hearts, rank = RA\<rparr>,
       \<lparr>suit = spades, rank = R6\<rparr>, \<lparr>suit = clubs, rank = R8\<rparr>]\<rparr>)) = 0
   \<and> \<not> isBust (calculateValue (new_Hand\<lparr>cards := [\<lparr>suit = hearts, rank = RA\<rparr>,
       \<lparr>suit = spades, rank = R6\<rparr>, \<lparr>suit = clubs, rank = R8\<rparr>]\<rparr>))
   \<and> value_hand (calculateValue (new_Hand\<lparr>cards := [\<lparr>suit = hearts, rank = RK\<rparr>,
       \<lparr>suit = spades, rank = RQ\<rparr>, \<lparr>suit = clubs, rank = R5\<rparr>]\<rparr>)) = 25
   \<and> isBust (calculateValue (new_Hand\<lparr>cards := [\<lparr>suit = hearts, rank = RK\<rparr>,
       \<lparr>suit = spades, rank = RQ\<rparr>, \<lparr>suit = clubs, rank = R5\<rparr>]\<rparr>))"
  using calculateValue_soft_ace_resolution
      [of "new_Hand\<lparr>cards := [\<lparr>suit = hearts, rank = RA\<rparr>, \<lparr>suit = spades, rank = R6\<rparr>,
         \<lparr>suit = clubs, rank = R8\<rparr>]\<rparr>"]
    calculateValue_soft_ace_resolution
      [of "new_Hand\<lparr>cards := [\<lparr>suit = hearts, rank = RK\<rparr>, \<lparr>suit = spades, rank = RQ\<rparr>,
         \<lparr>suit = clubs, rank = R5\<rparr>]\<rparr>"]
  by (simp add: new_Hand_def aces_high_def ace_count_def reduced_def)

text \<open>
  Claim C10. For a hand with no cards, \<open>calculateValue\<close> returns normally and sets the
  value to 0, the soft-ace count to 0 and both flags to false.
\<close>

theorem calculateValue_empty_hand:
  assumes "cards h = []"
  shows "calculateValue h =
    h\<lparr>value_hand := 0, softAces := 0, isBlackjack := False, isBust := False\<rparr>"
  using assms
  by (simp add: calculateValue_eq aces_high_def ace_count_def reduced_def)

theorem calculateValue_empty_hand_witness:
  "cards new_Hand = [] \<and> calculateValue new_Hand = new_Hand"
  using calculateValue_empty_hand [of new_Hand]
  by (simp add: new_Hand_def)

section \<open>Chip selection\<close>

text \<open>
  Claim C9. The invariant \<open>0 \<le> selected \<le> count\<close> is kept by every operation of a chip:
  \<open>select\<close> adds one to \<open>selected\<close> and returns true when \<open>selected < count\<close>, and
  otherwise returns false without changing the chip; \<open>deselect\<close> takes one from
  \<open>selected\<close> and returns true when \<open>selected > 0\<close>, and otherwise returns false
  without changing the chip; \<open>resetSelection\<close> sets \<open>selected\<close> to 0.
\<close>

theorem chip_selection_invariant:
  assumes "chip_inv c"
  shows "select c = (if selected c < count_chip c
                     then (True, c\<lparr>selected := selected c + 1\<rparr>) else (False, c))
    \<and> deselect c = (if 0 < selected c
                     then (True, c\<lparr>selected := selected c - 1\<rparr>) else (False, c))
    \<and> resetSelection c = c\<lparr>selected := 0\<rparr>
    \<and> chip_inv (snd (select c))
    \<and> chip_inv (snd (deselect c))
    \<and> chip_inv (resetSelection c)"
  using assms
  by (simp add: chip_inv_def select_def deselect_def resetSelection_def canSelect_def)

theorem chip_selection_invariant_witness:
  "chip_inv (new_Chip 25 ''chip-25'' ''$25'')
   \<and> select (new_Chip 25 ''chip-25'' ''$25'')
       = (True, (new_Chip 25 ''chip-25'' ''$25'')\<lparr>selected := 1\<rparr>)
   \<and> deselect (new_Chip 25 ''chip-25'' ''$25'') = (False, new_Chip 25 ''chip-25'' ''$25'')
   \<and> chip_inv (snd (select (new_Chip 25 ''chip-25'' ''$25'')))"
  using chip_selection_invariant [of "new_Chip 25 ''chip-25'' ''$25''"]
  by (simp add: chip_inv_def new_Chip_def)

section \<open>Score counters\<close>

text \<open>
  Claim C8. Recording a correct answer adds one to both \<open>correct\<close> and \<open>total\<close>, adds
  one to \<open>currentStreak\<close> and makes \<open>bestStreak\<close> the larger of its old value and the
  new streak; recording an incorrect answer adds one to \<open>total\<close>, leaves \<open>correct\<close>
  as it is and sets \<open>currentStreak\<close> to 0.
\<close>

theorem record_answer_counters:
  "correct (score (recordCorrect now g)) = correct (score g) + 1
   \<and> total (score (recordCorrect now g)) = total (score g) + 1
   \<and> currentStreak (sessionStats (recordCorrect now g)) = currentStreak (sessionStats g) + 1
   \<and> bestStreak (sessionStats (recordCorrect now g))
        = max (bestStreak (sessionStats g)) (currentStreak (sessionStats g) + 1)
   \<and> total (score (recordIncorrect g)) = total (score g) + 1
   \<and> correct (score (recordIncorrect g)) = correct (score g)
   \<and> currentStreak (sessionStats (recordIncorrect g)) = 0"
  by (simp add: recordCorrect_def recordIncorrect_def completeScenario_def
        updateSessionStats_def Let_def max_def split: option.split)

section \<open>Payout rules\<close>

lemma calculatePayout_None: "calculatePayout None = 0"
  by (simp add: calculatePayout_def)

lemma calculatePayout_Some:
  "calculatePayout (Some sc) =
     (if result sc = ''blackjack'' then betAmount sc * (3 / 2)
      else if result sc = ''win'' then betAmount sc
      else 0)"
  by (simp add: calculatePayout_def payoutRules_win_def)

text \<open>
  Claim C4, as stated, requires the payout to be non-negative for every bet amount. The
  function multiplies whatever bet amount it is given: a negative one yields a negative
  payout.
\<close>

theorem calculatePayout_negative_bet:
  "calculatePayout (Some \<lparr>betAmount = - 10, result = ''blackjack''\<rparr>) = - 15
   \<and> \<not> 0 \<le> calculatePayout (Some \<lparr>betAmount = - 10, result = ''blackjack''\<rparr>)"
  by (simp add: calculatePayout_Some)

text \<open>
  Claim C4, amended. For every bet amount, \<open>calculatePayout\<close> returns the bet times 1.5
  for \<open>blackjack\<close>, the bet for \<open>win\<close>, 0 for \<open>push\<close> and \<open>lose\<close>, and 0 for any
  other result string and for a missing scenario; two scenarios with the same bet amount
  and result get the same payout; and the payout is non-negative whenever the bet amount
  is non-negative.
\<close>

theorem calculatePayout_table:
  fixes sc :: "'a scenario_scheme" and sc' :: "'b scenario_scheme"
  shows "calculatePayout (None :: 'a scenario_scheme option) = 0
   \<and> (result sc = ''blackjack'' \<longrightarrow> calculatePayout (Some sc) = betAmount sc * (3 / 2))
   \<and> (result sc = ''win'' \<longrightarrow> calculatePayout (Some sc) = betAmount sc * 1)
   \<and> (result sc = ''push'' \<or> result sc = ''lose'' \<longrightarrow> calculatePayout (Some sc) = 0)
   \<and> (result sc \<notin> {''blackjack'', ''win'', ''push'', ''lose''} \<longrightarrow>
        calculatePayout (Some sc) = 0)
   \<and> (betAmount sc = betAmount sc' \<and> result sc = result sc' \<longrightarrow>
        calculatePayout (Some sc) = calculatePayout (Some sc'))
   \<and> (0 \<le> betAmount sc \<longrightarrow> 0 \<le> calculatePayout (Some sc))"
  by (simp add: calculatePayout_None calculatePayout_Some)

theorem calculatePayout_table_witness:
  "calculatePayout (Some \<lparr>betAmount = 10, result = ''blackjack''\<rparr>) = 15
   \<and> calculatePayout (Some \<lparr>betAmount = 25, result = ''win''\<rparr>) = 25
   \<and> calculatePayout (Some \<lparr>betAmount = 50, result = ''push''\<rparr>) = 0
   \<and> calculatePayout (Some \<lparr>betAmount = 100, result = ''lose''\<rparr>) = 0
   \<and> calculatePayout (Some \<lparr>betAmount = 10, result = ''invalid''\<rparr>) = 0
   \<and> 0 \<le> calculatePayout (Some \<lparr>betAmount = 10, result = ''blackjack''\<rparr>)"
  using calculatePayout_table [of "\<lparr>betAmount = 10, result = ''blackjack''\<rparr>"
          "\<lparr>betAmount = 10, result = ''blackjack''\<rparr>"]
    calculatePayout_table [of "\<lparr>betAmount = 25, result = ''win''\<rparr>"
          "\<lparr>betAmount = 25, result = ''win''\<rparr>"]
    calculatePayout_table [of "\<lparr>betAmount = 50, result = ''push''\<rparr>"
          "\<lparr>betAmount = 50, result = ''push''\<rparr>"]
    calculatePayout_table [of "\<lparr>betAmount = 100, result = ''lose''\<rparr>"
          "\<lparr>betAmount = 100, result = ''lose''\<rparr>"]
    calculatePayout_table [of "\<lparr>betAmount = 10, result = ''invalid''\<rparr>"
          "\<lparr>betAmount = 10, result = ''invalid''\<rparr>"]
  by simp

section \<open>Payout validation\<close>

text \<open>
  Claim C3. For every scenario object and every submitted amount, \<open>validatePayout\<close>
  returns an object whose \<open>isCorrect\<close> is true exactly when the absolute difference of
  the submitted amount and the computed payout is below 0.01, with \<open>correctAmount\<close> the
  computed payout, \<open>selectedAmount\<close> the submitted amount, \<open>difference\<close> the submitted
  amount less the payout, and a message built from them; for a missing scenario it returns
  \<open>isCorrect = false\<close> and the message "No scenario provided". The function is total:
  every operation of its body is defined on all numbers and strings, so no path throws.
\<close>

theorem validatePayout_result:
  fixes sc :: "'a scenario_scheme"
  shows "validatePayout (None :: 'a scenario_scheme option) a =
      \<lparr>isCorrect = False, correctAmount = None, selectedAmount = None, difference = None,
       message = [Str ''No scenario provided'']\<rparr>
   \<and> (isCorrect (validatePayout (Some sc) a) \<longleftrightarrow> \<bar>a - calculatePayout (Some sc)\<bar> < 1 / 100)
   \<and> correctAmount (validatePayout (Some sc) a) = Some (calculatePayout (Some sc))
   \<and> selectedAmount (validatePayout (Some sc) a) = Some a
   \<and> difference (validatePayout (Some sc) a) = Some (a - calculatePayout (Some sc))
   \<and> message (validatePayout (Some sc) a) =
        getValidationMessage sc a (calculatePayout (Some sc))
          (\<bar>a - calculatePayout (Some sc)\<bar> < 1 / 100)"
  by (simp add: validatePayout_def tolerance_def Let_def)

section \<open>Chip decomposition and bet display\<close>

lemma bet_loop_Cons:
  "bet_loop (t # ts) (res, remaining) =
     (if \<lfloor>remaining / value_type t\<rfloor> > 0
      then bet_loop ts
             (res @ [\<lparr>value_bet = value_type t, color_bet = color_type t,
                      label_bet = label_type t, count_bet = \<lfloor>remaining / value_type t\<rfloor>\<rparr>],
              of_int (Math_round ((remaining - of_int \<lfloor>remaining / value_type t\<rfloor> * value_type t) * 100)) / 100)
      else bet_loop ts (res, remaining))"
proof -
  let ?n = "\<lfloor>remaining / value_type t\<rfloor>"
  have c: "(if value_type t = 25 \<and> 0 < ?n then min ?n \<lfloor>remaining / 25\<rfloor>
            else if value_type t = 5 \<and> 0 < ?n then min ?n \<lfloor>remaining / 5\<rfloor>
            else ?n) = ?n"
    by auto
  show ?thesis
    unfolding bet_loop.simps Let_def c ..
qed

lemma bet_loop_nonpositive:
  "remaining \<le> 0 \<Longrightarrow> \<forall>t \<in> set ts. 0 < value_type t \<Longrightarrow>
     bet_loop ts (res, remaining) = (res, remaining)"
proof (induction ts)
  case Nil
  then show ?case by simp
next
  case (Cons t ts)
  have "remaining / value_type t \<le> 0"
    using Cons.prems by (simp add: divide_nonpos_pos)
  then have "\<lfloor>remaining / value_type t\<rfloor> \<le> 0"
    by (simp add: floor_le_zero)
  then show ?case using Cons by (simp add: bet_loop_Cons del: bet_loop.simps(2))
qed

lemma loops_agree:
  "map value_chip cs = map value_type ts \<Longrightarrow> item_pairs res = bet_pairs res' \<Longrightarrow>
     item_pairs (fst (optimal_loop cs (res, remaining)))
       = bet_pairs (fst (bet_loop ts (res', remaining)))"
proof (induction cs arbitrary: ts res res' remaining)
  case Nil
  then show ?case by simp
next
  case (Cons c cs)
  then obtain t ts' where ts: "ts = t # ts'" and v: "value_type t = value_chip c"
    and m: "map value_chip cs = map value_type ts'"
    by (cases ts) auto
  let ?n = "\<lfloor>remaining / value_chip c\<rfloor>"
  show ?case
  proof (cases "?n > 0")
    case True
    have "item_pairs (res @ [\<lparr>chip = c, count_item = ?n\<rparr>])
        = bet_pairs (res' @ [\<lparr>value_bet = value_type t, color_bet = color_type t,
                         label_bet = label_type t, count_bet = ?n\<rparr>])"
      using Cons.prems(2) by (simp add: item_pairs_def bet_pairs_def v)
    from Cons.IH [OF m this] True show ?thesis
      by (simp add: ts v Let_def bet_loop_Cons del: bet_loop.simps(2))
  next
    case False
    from Cons.IH [OF m Cons.prems(2)] False show ?thesis
      by (simp add: ts v Let_def bet_loop_Cons del: bet_loop.simps(2))
  qed
qed

lemma sorted_values:
  assumes "mset (map value_chip chips) = mset [1, 5 / 2, 5, 25, 100, 500, 1000]"
  shows "map value_chip (sort_key (\<lambda>c. - value_chip c) chips) = map value_type chipDenominations"
proof -
  let ?f = "\<lambda>c. - value_chip c"
  have "mset (map ?f (sort_key ?f chips)) = image_mset uminus (mset (map value_chip chips))"
    by (simp add: multiset.map_comp comp_def)
  also have "\<dots> = mset [- 1, - (5 / 2), - 5, - 25, - 100, - 500, - 1000 :: rat]"
    unfolding assms by simp
  also have "\<dots> = mset [- 1000, - 500, - 100, - 25, - 5, - (5 / 2), - 1 :: rat]"
    by (simp add: ac_simps)
  finally have ms: "mset (map ?f (sort_key ?f chips)) = mset [- 1000, - 500, - 100, - 25, - 5, - (5 / 2), - 1 :: rat]" .
  have so: "sorted (map ?f (sort_key ?f chips))"
    by (rule sorted_sort_key)
  have "sort [- 1000, - 500, - 100, - 25, - 5, - (5 / 2), - 1 :: rat] = map ?f (sort_key ?f chips)"
    using ms so by (intro properties_for_sort) simp_all
  moreover have "sort [- 1000, - 500, - 100, - 25, - 5, - (5 / 2), - 1 :: rat]
      = [- 1000, - 500, - 100, - 25, - 5, - (5 / 2), - 1]"
    by (intro sorted_sort_id) simp
  ultimately have "map ?f (sort_key ?f chips) = [- 1000, - 500, - 100, - 25, - 5, - (5 / 2), - 1]"
    by simp
  then have "map uminus (map ?f (sort_key ?f chips)) = map uminus [- 1000, - 500, - 100, - 25, - 5, - (5 / 2), - 1]"
    by simp
  then show ?thesis
    by (simp add: chipDenominations_def comp_def)
qed

text \<open>
  Claim C7. For every chip list holding the seven standard denominations and every amount
  on which \<open>calculateOptimalChips\<close> returns a combination, \<open>calculateBetChips\<close> on that
  amount returns the same (denomination value, count) pairs, in the same order and hence
  as the same multiset.
\<close>

theorem bet_chips_same_as_optimal:
  assumes "mset (map value_chip chips) = mset [1, 5 / 2, 5, 25, 100, 500, 1000]"
    and "calculateOptimalChips a chips = Some r"
  shows "item_pairs r = bet_pairs (calculateBetChips a)
    \<and> mset (item_pairs r) = mset (bet_pairs (calculateBetChips a))"
proof -
  have eq: "item_pairs r = bet_pairs (calculateBetChips a)"
  proof (cases "a \<le> 0")
    case True
    then have "r = []" using assms(2) by (simp add: calculateOptimalChips_def)
    moreover have "bet_loop chipDenominations ([], a) = ([], a)"
      using True by (intro bet_loop_nonpositive) (simp_all add: chipDenominations_def)
    ultimately show ?thesis
      by (simp add: calculateBetChips_def item_pairs_def bet_pairs_def)
  next
    case False
    then have "r = fst (optimal_loop (sort_key (\<lambda>c. - value_chip c) chips) ([], a))"
      using assms(2)
      by (auto simp: calculateOptimalChips_def Let_def split: prod.splits if_splits)
    then show ?thesis
      using loops_agree [OF sorted_values [OF assms(1)], of "[]" "[]" a]
      by (simp add: calculateBetChips_def item_pairs_def bet_pairs_def)
  qed
  then show ?thesis by simp
qed

theorem bet_chips_same_as_optimal_witness:
  "mset (map value_chip ChipManager_chips) = mset [1, 5 / 2, 5, 25, 100, 500, 1000]
   \<and> (\<exists>r. calculateOptimalChips 37 ChipManager_chips = Some r
            \<and> item_pairs r = [(25, 1), (5, 2), (1, 2)])
   \<and> bet_pairs (calculateBetChips 37) = [(25, 1), (5, 2), (1, 2)]"
proof -
  have m: "mset (map value_chip ChipManager_chips) = mset [1, 5 / 2, 5, 25, 100, 500, 1000]"
    by (simp add: ChipManager_chips_def new_Chip_def)
  have r: "calculateOptimalChips 37 ChipManager_chips =
     Some [\<lparr>chip = new_Chip 25 ''chip-25'' ''$25'', count_item = 1\<rparr>,
           \<lparr>chip = new_Chip 5 ''chip-5'' ''$5'', count_item = 2\<rparr>,
           \<lparr>chip = new_Chip 1 ''chip-1'' ''$1'', count_item = 2\<rparr>]"
    by code_simp
  have p: "item_pairs [\<lparr>chip = new_Chip 25 ''chip-25'' ''$25'', count_item = 1\<rparr>,
           \<lparr>chip = new_Chip 5 ''chip-5'' ''$5'', count_item = 2\<rparr>,
           \<lparr>chip = new_Chip 1 ''chip-1'' ''$1'', count_item = 2\<rparr>] = [(25, 1), (5, 2), (1, 2)]"
    by (simp add: item_pairs_def new_Chip_def)
  show ?thesis
    using bet_chips_same_as_optimal [OF m r] m r p by simp
qed

text \<open>
  Every combination \<open>calculateOptimalChips\<close> returns for a non-negative target adds up
  to the target within the tolerance, for any chips whose values are positive whole numbers
  of cents: only the first subtraction can be rounded, by at most half a cent, and the
  final remainder, a whole number of cents below one cent, is 0.
\<close>

lemma is_cents_iff: "is_cents x \<longleftrightarrow> (\<exists>k::int. x = of_int k / 100)"
proof
  define k where "k = \<lfloor>x * 100\<rfloor>"
  assume "is_cents x"
  then have "of_int k = x * 100"
    unfolding is_cents_def k_def .
  then have "x = of_int k / 100" by simp
  then show "\<exists>k::int. x = of_int k / 100" ..
next
  assume "\<exists>k::int. x = of_int k / 100"
  then obtain k :: int where "x = of_int k / 100" ..
  then show "is_cents x"
    by (simp add: is_cents_def)
qed

lemma Math_round_int: "Math_round (of_int k) = k"
  unfolding Math_round_def by linarith

lemma round_exact:
  assumes "is_cents x"
  shows "of_int (Math_round (x * 100)) / 100 = x"
proof -
  from assms obtain k :: int where x: "x = of_int k / 100"
    unfolding is_cents_iff by blast
  then have "x * 100 = of_int k" by simp
  then show ?thesis by (simp add: Math_round_int x)
qed

lemma round_close: "\<bar>of_int (Math_round (x * 100)) / 100 - x\<bar> \<le> (1 / 200 :: rat)"
proof -
  define y where "y = x * 100"
  have "of_int (Math_round y) \<le> y + 1 / 2" "y + 1 / 2 < of_int (Math_round y) + 1"
    unfolding Math_round_def by linarith+
  then have "\<bar>of_int (Math_round y) - y\<bar> \<le> 1 / 2" by linarith
  then have "\<bar>of_int (Math_round y) / 100 - y / 100\<bar> \<le> 1 / 200"
    by (simp add: abs_le_iff field_simps)
  then show ?thesis by (simp add: y_def)
qed

lemma round_nonneg: "0 \<le> y \<Longrightarrow> 0 \<le> (of_int (Math_round y) / 100 :: rat)"
  unfolding Math_round_def by simp

lemma is_cents_round: "is_cents (of_int k / 100)"
  unfolding is_cents_iff by blast

lemma is_cents_diff: "is_cents x \<Longrightarrow> is_cents v \<Longrightarrow> is_cents (x - of_int n * v)"
proof -
  assume "is_cents x" "is_cents v"
  then obtain a b :: int where "x = of_int a / 100" "v = of_int b / 100"
    unfolding is_cents_iff by blast
  then have "x - of_int n * v = of_int (a - n * b) / 100"
    by (simp add: field_simps)
  then show ?thesis unfolding is_cents_iff by blast
qed

lemma remainder_nonneg:
  assumes "0 < v"
  shows "0 \<le> x - of_int \<lfloor>x / v\<rfloor> * (v::rat)"
proof -
  have "of_int \<lfloor>x / v\<rfloor> \<le> x / v" by simp
  then have "of_int \<lfloor>x / v\<rfloor> * v \<le> x"
    using assms by (subst pos_le_divide_eq [symmetric]) simp_all
  then show ?thesis by simp
qed

lemma pairs_total_snoc:
  "pairs_total (item_pairs (res @ [\<lparr>chip = c, count_item = n\<rparr>]))
     = pairs_total (item_pairs res) + value_chip c * of_int n"
  by (simp add: pairs_total_def item_pairs_def)

lemma optimal_loop_exact:
  assumes "\<forall>c \<in> set cs. 0 < value_chip c \<and> is_cents (value_chip c)"
    and "is_cents remaining" and "0 \<le> remaining"
    and "optimal_loop cs (res, remaining) = (res', remaining')"
  shows "pairs_total (item_pairs res') + remaining' = pairs_total (item_pairs res) + remaining
    \<and> is_cents remaining' \<and> 0 \<le> remaining'"
  using assms
proof (induction cs arbitrary: res remaining)
  case Nil
  then show ?case by simp
next
  case (Cons c cs)
  let ?n = "\<lfloor>remaining / value_chip c\<rfloor>"
  let ?r = "remaining - of_int ?n * value_chip c"
  have v: "0 < value_chip c" "is_cents (value_chip c)"
    and rest: "\<forall>c \<in> set cs. 0 < value_chip c \<and> is_cents (value_chip c)"
    using Cons.prems(1) by simp_all
  show ?case
  proof (cases "?n > 0")
    case True
    have c: "is_cents ?r" using Cons.prems(2) v(2) by (rule is_cents_diff)
    have p: "0 \<le> ?r" using v(1) by (rule remainder_nonneg)
    have "optimal_loop cs (res @ [\<lparr>chip = c, count_item = ?n\<rparr>], ?r) = (res', remaining')"
      using Cons.prems(4) True
      unfolding optimal_loop.simps Let_def round_exact [OF c] by simp
    from Cons.IH [OF rest c p this] show ?thesis
      by (simp add: pairs_total_snoc)
  next
    case False
    then have "optimal_loop cs (res, remaining) = (res', remaining')"
      using Cons.prems(4) by (simp add: Let_def)
    from Cons.IH [OF rest Cons.prems(2,3) this] show ?thesis .
  qed
qed

lemma optimal_loop_first:
  assumes "\<forall>c \<in> set cs. 0 < value_chip c \<and> is_cents (value_chip c)"
    and "0 \<le> remaining"
    and "optimal_loop cs ([], remaining) = (res', remaining')"
  shows "res' = [] \<and> remaining' = remaining
    \<or> is_cents remaining' \<and> 0 \<le> remaining'
      \<and> \<bar>pairs_total (item_pairs res') + remaining' - remaining\<bar> \<le> 1 / 200"
  using assms
proof (induction cs)
  case Nil
  then show ?case by simp
next
  case (Cons c cs)
  let ?n = "\<lfloor>remaining / value_chip c\<rfloor>"
  let ?r = "remaining - of_int ?n * value_chip c"
  let ?r' = "of_int (Math_round (?r * 100)) / 100 :: rat"
  have v: "0 < value_chip c"
    and rest: "\<forall>c \<in> set cs. 0 < value_chip c \<and> is_cents (value_chip c)"
    using Cons.prems(1) by simp_all
  show ?case
  proof (cases "?n > 0")
    case True
    have p: "0 \<le> ?r" using v by (rule remainder_nonneg)
    then have "0 \<le> ?r * 100" by simp
    then have p': "0 \<le> ?r'" by (rule round_nonneg)
    have c': "is_cents ?r'" by (rule is_cents_round)
    have cl: "\<bar>?r' - ?r\<bar> \<le> 1 / 200"
      by (rule round_close)
    have "optimal_loop cs ([] @ [\<lparr>chip = c, count_item = ?n\<rparr>], ?r') = (res', remaining')"
      using Cons.prems(3) True
      unfolding optimal_loop.simps Let_def by simp
    from optimal_loop_exact [OF rest c' p' this]
    have "pairs_total (item_pairs res') + remaining' = value_chip c * of_int ?n + ?r'"
      and "is_cents remaining'" and "0 \<le> remaining'"
      by (simp_all add: pairs_total_snoc pairs_total_def item_pairs_def)
    then show ?thesis using cl by (simp add: algebra_simps)
  next
    case False
    then have "optimal_loop cs ([], remaining) = (res', remaining')"
      using Cons.prems(3) by (simp add: Let_def)
    from Cons.IH [OF rest Cons.prems(2) this] show ?thesis .
  qed
qed

lemma cents_below_one:
  assumes "is_cents x" and "0 \<le> x" and "x < 1 / 100"
  shows "x = 0"
proof -
  from assms(1) obtain k :: int where x: "x = of_int k / 100"
    unfolding is_cents_iff by blast
  have "0 \<le> k" using assms(2) by (simp add: x)
  moreover have "k < 1" using assms(3) by (simp add: x)
  ultimately show ?thesis by (simp add: x)
qed

lemma calculateOptimalChips_sound:
  assumes "\<forall>c \<in> set chips. 0 < value_chip c \<and> is_cents (value_chip c)"
    and "0 \<le> a"
    and "calculateOptimalChips a chips = Some r"
  shows "\<bar>pairs_total (item_pairs r) - a\<bar> < 1 / 100"
proof (cases "a \<le> 0")
  case True
  then have "r = []" "a = 0"
    using assms(2,3) by (simp_all add: calculateOptimalChips_def)
  then show ?thesis by (simp add: pairs_total_def item_pairs_def)
next
  case False
  let ?cs = "sort_key (\<lambda>c. - value_chip c) chips"
  obtain res' rem' where l: "optimal_loop ?cs ([], a) = (res', rem')"
    by (cases "optimal_loop ?cs ([], a)")
  have r: "r = res'" and small: "rem' < 1 / 100"
    using assms(3) False l
    by (auto simp: calculateOptimalChips_def Let_def tolerance_def split: if_splits)
  have ok: "\<forall>c \<in> set ?cs. 0 < value_chip c \<and> is_cents (value_chip c)"
    using assms(1) by simp
  from optimal_loop_first [OF ok assms(2) l] show ?thesis
  proof
    assume "res' = [] \<and> rem' = a"
    then show ?thesis
      using small assms(2) by (simp add: r pairs_total_def item_pairs_def)
  next
    assume h: "is_cents rem' \<and> 0 \<le> rem'
      \<and> \<bar>pairs_total (item_pairs res') + rem' - a\<bar> \<le> 1 / 200"
    then have "rem' = 0" using small by (intro cents_below_one) simp_all
    then show ?thesis using h by (simp add: r)
  qed
qed

lemma ChipManager_chips_cents:
  "\<forall>c \<in> set ChipManager_chips. 0 < value_chip c \<and> is_cents (value_chip c)"
proof -
  have "is_cents 1" "is_cents (5 / 2)" "is_cents 5" "is_cents 25" "is_cents 100"
    "is_cents 500" "is_cents 1000"
    using is_cents_round [of 100] is_cents_round [of 250] is_cents_round [of 500]
      is_cents_round [of 2500] is_cents_round [of 10000] is_cents_round [of 50000]
      is_cents_round [of 100000]
    by simp_all
  then show ?thesis by (simp add: ChipManager_chips_def new_Chip_def)
qed


text \<open>
  Claim C1 requires a combination for every amount the seven denominations can pay
  exactly. The payout of a bet of 7 is 10.5, which is one 5, one 2.5 and three 1s; the
  greedy loop takes two 5s, is left with 0.5, which is less than every chip, and the
  function returns \<open>null\<close>.
\<close>

theorem calculateOptimalChips_misses_exact_change:
  "calculateOptimalChips (21 / 2) ChipManager_chips = None
   \<and> pairs_total [(5, 1), (5 / 2, 1), (1, 3)] = 21 / 2
   \<and> calculatePayout (Some \<lparr>betAmount = 7, result = ''blackjack''\<rparr>) = 21 / 2"
  by code_simp

section \<open>Generated scenarios\<close>

lemma Math_random_range: "0 \<le> Math_random x \<and> Math_random x < 1"
  unfolding Math_random_def by linarith

lemma random_index_less:
  assumes "0 < n"
  shows "nat \<lfloor>Math_random x * of_nat n\<rfloor> < n"
proof -
  have "Math_random x * of_nat n < 1 * of_nat n"
    using assms Math_random_range [of x] by (intro mult_strict_right_mono) simp_all
  then have "\<lfloor>Math_random x * of_nat n\<rfloor> < int n"
    by (simp add: floor_less_iff)
  then show ?thesis using assms by linarith
qed

lemma betAmounts_positive: "\<forall>b \<in> set betAmounts. 0 < b"
  by (simp add: betAmounts_def)

lemma indexOf_found:
  "x \<in> set xs \<Longrightarrow>
     0 \<le> indexOf xs x \<and> nat (indexOf xs x) < length xs \<and> xs ! nat (indexOf xs x) = x"
proof (induction xs)
  case Nil
  then show ?case by simp
next
  case (Cons y ys)
  show ?case
  proof (cases "y = x")
    case True
    then show ?thesis by simp
  next
    case False
    then have "x \<in> set ys" using Cons.prems by simp
    from Cons.IH [OF this] False show ?thesis
      by (simp add: Let_def nat_add_distrib)
  qed
qed

lemma splice1_in_range:
  "0 \<le> k \<Longrightarrow> nat k < length xs \<Longrightarrow>
     splice1 k xs = (Some (xs ! nat k), take (nat k) xs @ drop (nat k + 1) xs)"
  by (simp add: splice1_def Let_def)

lemma splice1_found:
  assumes "x \<in> set xs"
  shows "splice1 (indexOf xs x) xs =
    (Some x, take (nat (indexOf xs x)) xs @ drop (nat (indexOf xs x) + 1) xs)"
  using indexOf_found [OF assms] by (simp add: splice1_in_range)

lemma set_remove_nth:
  assumes "k < length xs" and "y \<in> set xs" and "y \<noteq> xs ! k"
  shows "y \<in> set (take k xs @ drop (k + 1) xs)"
proof -
  have "y \<in> set (take k xs @ xs ! k # drop (Suc k) xs)"
    using assms(2) by (subst id_take_nth_drop [OF assms(1), symmetric])
  then show ?thesis using assms(3) by auto
qed

lemma blackjack_pair:
  assumes "rank a = RA" and "rank t \<in> {R10, RJ, RQ, RK}"
  shows "addCard (addCard new_Hand a) t =
    \<lparr>cards = [a, t], value_hand = 21, softAces = 1, isBlackjack = True, isBust = False\<rparr>"
proof -
  have h: "aces_high [a, t] = 21" "ace_count [a, t] = 1"
    using assms by (auto simp: aces_high_def ace_count_def)
  have r: "reduced [a, t] = 0"
    by (simp add: reduced_def h)
  have c: "cards (addCard new_Hand a) = [a]"
    by (simp add: addCard_def calculateValue_eq new_Hand_def)
  show ?thesis
    unfolding addCard_def [of "addCard new_Hand a" t] calculateValue_eq
    by (simp add: c h r)
qed

lemma deal_player_Some:
  "\<exists>a t m'. deal_player m = Some (addCard (addCard new_Hand a) t, m')
      \<and> rank a = RA \<and> rank t \<in> {R10, RJ, RQ, RK}
      \<and> (a \<in> set (deck m) \<and> t \<in> set (deck m)
          \<or> a = \<lparr>suit = hearts, rank = RA\<rparr> \<and> t = \<lparr>suit = spades, rank = RK\<rparr>)"
proof -
  define aceCards where "aceCards = filter (\<lambda>card. rank card = RA) (deck m)"
  define tenCards where "tenCards = filter (\<lambda>card. rank card \<in> set [R10, RJ, RQ, RK]) (deck m)"
  show ?thesis
  proof (cases "length aceCards > 0 \<and> length tenCards > 0")
    case False
    have "deal_player m = Some (addCard (addCard new_Hand \<lparr>suit = hearts, rank = RA\<rparr>)
        \<lparr>suit = spades, rank = RK\<rparr>, m)"
      unfolding deal_player_def Let_def aceCards_def [symmetric] tenCards_def [symmetric]
      using False by (simp only: if_False)
    then show ?thesis
      by (intro exI [of _ "\<lparr>suit = hearts, rank = RA\<rparr>"]
            exI [of _ "\<lparr>suit = spades, rank = RK\<rparr>"] exI [of _ m]) simp
  next
    case True
    define a where "a = aceCards ! 0"
    define t where "t = tenCards ! 0"
    have "a \<in> set aceCards"
      unfolding a_def using True by (intro nth_mem) simp
    then have a: "a \<in> set (deck m)" "rank a = RA"
      by (simp_all add: aceCards_def)
    have "t \<in> set tenCards"
      unfolding t_def using True by (intro nth_mem) simp
    then have t: "t \<in> set (deck m)" "rank t \<in> {R10, RJ, RQ, RK}"
      by (simp_all add: tenCards_def)
    define k where "k = nat (indexOf (deck m) a)"
    define d1 where "d1 = take k (deck m) @ drop (k + 1) (deck m)"
    have s1: "splice1 (indexOf (deck m) a) (deck m) = (Some a, d1)"
      unfolding d1_def k_def by (rule splice1_found [OF a(1)])
    have k: "k < length (deck m)" "deck m ! k = a"
      unfolding k_def using indexOf_found [OF a(1)] by simp_all
    have "t \<noteq> a" using a(2) t(2) by auto
    then have "t \<in> set d1"
      unfolding d1_def using set_remove_nth [OF k(1) t(1)] k(2) by simp
    then have "splice1 (indexOf d1 t) d1 =
        (Some t, take (nat (indexOf d1 t)) d1 @ drop (nat (indexOf d1 t) + 1) d1)"
      by (rule splice1_found)
    then obtain d2 where s2: "splice1 (indexOf d1 t) d1 = (Some t, d2)" ..
    have "deal_player m = Some (addCard (addCard new_Hand a) t, m\<lparr>deck := d2\<rparr>)"
      unfolding deal_player_def Let_def aceCards_def [symmetric] tenCards_def [symmetric]
        a_def [symmetric] t_def [symmetric]
      using True by (simp only: if_True s1 s2 prod.case option.case simp_thms)
    then show ?thesis using a t by blast
  qed
qed

lemma generateScenario_parts:
  assumes "generateScenario rnd m = Some (sc, m')"
  shows "\<exists>ph m2 dh (m6 :: ScenarioManager). deal_player (shuffleDeck rnd m) = Some (ph, m2)
    \<and> sc = new_BlackjackScenario ph dh
           (betAmounts ! nat \<lfloor>Math_random (rnd (drawn m6)) * of_nat (length betAmounts)\<rfloor>)"
  using assms
  by (fastforce simp: generateScenario_def Let_def bind_eq_Some_conv)

text \<open>
  Claim C2. Every scenario \<open>generateScenario\<close> returns has a player hand of exactly two
  cards, an ace followed by a ten-valued card (10, J, Q or K), both taken from the shuffled
  deck or else the synthetic ace of hearts and king of spades; the hand's value is 21 and
  its \<open>isBlackjack\<close> flag is true; the result is \<open>blackjack\<close>, the correct payout is
  the bet amount times 1.5, and the bet amount is an element of the fixed list and positive.
\<close>

theorem generateScenario_player_blackjack:
  assumes "generateScenario rnd m = Some (sc, m')"
  shows "length (cards (playerHand sc)) = 2
    \<and> rank (cards (playerHand sc) ! 0) = RA
    \<and> rank (cards (playerHand sc) ! 1) \<in> {R10, RJ, RQ, RK}
    \<and> (set (cards (playerHand sc)) \<subseteq> set (deck (shuffleDeck rnd m))
        \<or> cards (playerHand sc) = [\<lparr>suit = hearts, rank = RA\<rparr>, \<lparr>suit = spades, rank = RK\<rparr>])
    \<and> value_hand (playerHand sc) = 21
    \<and> isBlackjack (playerHand sc)
    \<and> result sc = ''blackjack''
    \<and> correctPayout sc = betAmount sc * (3 / 2)
    \<and> betAmount sc \<in> set betAmounts
    \<and> 0 < betAmount sc"
proof -
  from generateScenario_parts [OF assms] obtain ph m2 dh and m6 :: ScenarioManager where
    dp: "deal_player (shuffleDeck rnd m) = Some (ph, m2)" and
    sc: "sc = new_BlackjackScenario ph dh
           (betAmounts ! nat \<lfloor>Math_random (rnd (drawn m6)) * of_nat (length betAmounts)\<rfloor>)"
    by blast
  from deal_player_Some [of "shuffleDeck rnd m"] dp obtain a t where
    ph: "ph = addCard (addCard new_Hand a) t" and ra: "rank a = RA"
    and rt: "rank t \<in> {R10, RJ, RQ, RK}"
    and src: "a \<in> set (deck (shuffleDeck rnd m)) \<and> t \<in> set (deck (shuffleDeck rnd m))
              \<or> a = \<lparr>suit = hearts, rank = RA\<rparr> \<and> t = \<lparr>suit = spades, rank = RK\<rparr>"
    by auto
  have hand: "ph = \<lparr>cards = [a, t], value_hand = 21, softAces = 1, isBlackjack = True,
      isBust = False\<rparr>"
    unfolding ph by (rule blackjack_pair [OF ra rt])
  have "0 < length betAmounts" by (simp add: betAmounts_def)
  then have "nat \<lfloor>Math_random (rnd (drawn m6)) * of_nat (length betAmounts)\<rfloor> < length betAmounts"
    by (rule random_index_less)
  then have bet: "betAmount sc \<in> set betAmounts"
    by (simp add: sc new_BlackjackScenario_def)
  then have pos: "0 < betAmount sc"
    using betAmounts_positive by blast
  have p: "playerHand sc = ph" "result sc = ''blackjack''"
    "correctPayout sc = betAmount sc * (3 / 2)"
    by (simp_all add: sc new_BlackjackScenario_def determineResult_def calculateCorrectPayout_def)
  have c: "cards (playerHand sc) = [a, t]" "value_hand (playerHand sc) = 21"
    "isBlackjack (playerHand sc)"
    by (simp_all add: p hand)
  have src': "set (cards (playerHand sc)) \<subseteq> set (deck (shuffleDeck rnd m))
      \<or> cards (playerHand sc) = [\<lparr>suit = hearts, rank = RA\<rparr>, \<lparr>suit = spades, rank = RK\<rparr>]"
    using src by (auto simp: c)
  show ?thesis
    using src' ra rt bet pos p(2,3) c(2,3) by (simp add: c(1))
qed


theorem generateScenario_player_blackjack_witness:
  "generateScenario rnd_plain new_ScenarioManager \<noteq> None
   \<and> cards (playerHand (fst (the (generateScenario rnd_plain new_ScenarioManager))))
       = [\<lparr>suit = hearts, rank = RA\<rparr>, \<lparr>suit = hearts, rank = R10\<rparr>]
   \<and> isBlackjack (playerHand (fst (the (generateScenario rnd_plain new_ScenarioManager))))
   \<and> betAmount (fst (the (generateScenario rnd_plain new_ScenarioManager))) = 177
   \<and> correctPayout (fst (the (generateScenario rnd_plain new_ScenarioManager))) = 531 / 2"
proof -
  have "map_option (\<lambda>(sc, m'). (cards (playerHand sc), betAmount sc))
          (generateScenario rnd_plain new_ScenarioManager)
      = Some ([\<lparr>suit = hearts, rank = RA\<rparr>, \<lparr>suit = hearts, rank = R10\<rparr>], 177)"
    by code_simp
  then obtain sc m' where g: "generateScenario rnd_plain new_ScenarioManager = Some (sc, m')"
    and c: "cards (playerHand sc) = [\<lparr>suit = hearts, rank = RA\<rparr>, \<lparr>suit = hearts, rank = R10\<rparr>]"
    and b: "betAmount sc = 177"
    by auto
  from generateScenario_player_blackjack [OF g] c b show ?thesis
    by (simp add: g)
qed

text \<open>
  The generator always returns. The shuffle permutes the deck; \<open>dealCard\<close> never finds
  the deck empty; the redraw loop ends because a deck of at least ten cards is popped down
  to nine before it is rebuilt, and the 42 cards popped from a rebuilt deck after the first
  cannot all be among its 16 ten-valued cards; the dealer's loop ends because every card
  adds at least 1 to the all-aces-low total, which the value never falls below.
\<close>

lemma shuffle_loop_length: "length (deck (shuffle_loop rnd k m)) = length (deck m)"
  by (induction k arbitrary: m) (simp_all add: Let_def)

lemma shuffle_loop_mset:
  "k < length (deck m) \<Longrightarrow> mset (deck (shuffle_loop rnd k m)) = mset (deck m)"
proof (induction k arbitrary: m)
  case 0
  then show ?case by simp
next
  case (Suc k)
  let ?j = "nat \<lfloor>Math_random (rnd (drawn m)) * of_nat (Suc k + 1)\<rfloor>"
  let ?d = "deck m"
  have j: "?j < Suc k + 1"
    by (rule random_index_less) simp
  then have jl: "?j < length ?d" using Suc.prems by simp
  have sw: "mset (?d[Suc k := ?d ! ?j, ?j := ?d ! Suc k]) = mset ?d"
    using Suc.prems jl by (simp add: mset_swap)
  have "k < length (deck (m\<lparr>deck := ?d[Suc k := ?d ! ?j, ?j := ?d ! Suc k], drawn := Suc (drawn m)\<rparr>))"
    using Suc.prems by simp
  from Suc.IH [OF this] sw show ?case
    by (simp add: Let_def)
qed

lemma shuffleDeck_length: "length (deck (shuffleDeck rnd m)) = length (deck m)"
  by (simp add: shuffleDeck_def shuffle_loop_length)

lemma shuffleDeck_mset: "mset (deck (shuffleDeck rnd m)) = mset (deck m)"
proof (cases "deck m = []")
  case True
  then show ?thesis by (simp add: shuffleDeck_def)
next
  case False
  then have "length (deck m) - 1 < length (deck m)" by simp
  then show ?thesis unfolding shuffleDeck_def by (rule shuffle_loop_mset)
qed

lemma initializeDeck_deck:
  "deck (initializeDeck m) =
     concat (map (\<lambda>s. map (\<lambda>r. \<lparr>suit = s, rank = r\<rparr>) ranks) suits)"
  by (simp add: initializeDeck_def)

lemma fresh_deck_length: "length (deck (shuffleDeck rnd (initializeDeck m))) = 52"
  by (simp add: shuffleDeck_length initializeDeck_deck suits_def ranks_def)

lemma fresh_deck_tens:
  "length (filter is_ten (deck (shuffleDeck rnd (initializeDeck m)))) = 16"
proof -
  have "length (filter is_ten (deck (shuffleDeck rnd (initializeDeck m))))
      = size (filter_mset is_ten (mset (deck (shuffleDeck rnd (initializeDeck m)))))"
    by (simp only: mset_filter [symmetric] size_mset)
  also have "\<dots> = length (filter is_ten (deck (initializeDeck m)))"
    by (simp only: shuffleDeck_mset mset_filter [symmetric] size_mset)
  also have "\<dots> = 16"
    by (simp add: initializeDeck_deck suits_def ranks_def is_ten_def getCardValue_cardValue)
  finally show ?thesis .
qed

lemma dealCard_Some:
  "dealCard rnd m =
     Some (last (deck (if length (deck m) < 10 then shuffleDeck rnd (initializeDeck m) else m)),
           (if length (deck m) < 10 then shuffleDeck rnd (initializeDeck m) else m)
             \<lparr>deck := butlast (deck (if length (deck m) < 10
                                      then shuffleDeck rnd (initializeDeck m) else m))\<rparr>)"
proof (cases "length (deck m) < 10")
  case True
  have "deck (shuffleDeck rnd (initializeDeck m)) \<noteq> []"
    using fresh_deck_length [of rnd m] by auto
  then show ?thesis using True by (simp add: dealCard_def Let_def)
next
  case False
  then have "deck m \<noteq> []" by auto
  then show ?thesis using False by (simp add: dealCard_def Let_def)
qed


lemma redraw_stop: "\<not> is_ten c \<Longrightarrow> redraw rnd dh c m = Some (c, m)"
  by (subst redraw.simps) (simp add: is_ten_def)

lemma drop_butlast_mem:
  assumes "x \<in> set (drop n d)" and "x \<noteq> last d"
  shows "x \<in> set (drop n (butlast d))"
proof -
  have ne: "drop n d \<noteq> []" using assms(1) by auto
  then have "last (drop n d) = last d" by simp
  then have neq: "x \<noteq> last (drop n d)" using assms(2) by simp
  have "x \<in> set (butlast (drop n d) @ [last (drop n d)])"
    using assms(1) by (simp only: append_butlast_last_id [OF ne])
  then have "x \<in> set (butlast (drop n d))"
    using neq by simp
  then show ?thesis by (simp add: drop_butlast)
qed

lemma redraw_finds:
  assumes "\<not> is_ten c \<or> (\<exists>x \<in> set (drop 9 (deck m)). \<not> is_ten x)"
  shows "\<exists>r. redraw rnd dh c m = Some r"
  using assms
proof (induction "length (deck m)" arbitrary: m c rule: less_induct)
  case less
  show ?case
  proof (cases "is_ten c")
    case False
    then show ?thesis by (simp add: redraw_stop)
  next
    case True
    then obtain x where x: "x \<in> set (drop 9 (deck m))" "\<not> is_ten x"
      using less.prems by blast
    then have len: "\<not> length (deck m) < 10" by auto
    then have ne: "deck m \<noteq> []" by auto
    let ?c = "last (deck m)" and ?m = "m\<lparr>deck := butlast (deck m)\<rparr>"
    have dc: "dealCard rnd m = Some (?c, ?m)"
      using len by (simp add: dealCard_Some)
    have "\<not> is_ten ?c \<or> (\<exists>y \<in> set (drop 9 (deck ?m)). \<not> is_ten y)"
    proof (cases "is_ten ?c")
      case True
      then have "x \<noteq> ?c" using x(2) by auto
      then have "x \<in> set (drop 9 (butlast (deck m)))"
        using x(1) by (intro drop_butlast_mem)
      then show ?thesis using x(2) by auto
    qed simp
    moreover have "length (deck ?m) < length (deck m)"
      using ne by simp
    ultimately obtain r where r: "redraw rnd dh ?c ?m = Some r"
      using less.hyps by blast
    show ?thesis
      by (subst redraw.simps) (simp add: dc r)
  qed
qed

lemma fresh_deck_has_other:
  "\<exists>x \<in> set (drop 9 (butlast (deck (shuffleDeck rnd (initializeDeck m))))). \<not> is_ten x"
proof (rule ccontr)
  let ?d = "deck (shuffleDeck rnd (initializeDeck m))"
  let ?p = "drop 9 (butlast ?d)"
  assume "\<not> (\<exists>x \<in> set ?p. \<not> is_ten x)"
  then have all: "filter is_ten ?p = ?p" by (simp add: filter_id_conv)
  have ne: "?d \<noteq> []" using fresh_deck_length [of rnd m] by auto
  have "?d = take 9 (butlast ?d) @ ?p @ [last ?d]"
    by (simp only: append_assoc [symmetric] append_take_drop_id append_butlast_last_id [OF ne])
  then have "filter is_ten ?d
      = filter is_ten (take 9 (butlast ?d)) @ filter is_ten ?p @ filter is_ten [last ?d]"
    by (metis filter_append)
  then have "length ?p \<le> length (filter is_ten ?d)"
    by (simp add: all)
  moreover have "length ?p = 42"
    by (simp add: fresh_deck_length)
  ultimately show False
    by (simp add: fresh_deck_tens)
qed

lemma redraw_total: "\<exists>r. redraw rnd dh c m = Some r"
proof (induction "length (deck m)" arbitrary: m c rule: less_induct)
  case less
  show ?case
  proof (cases "is_ten c")
    case False
    then show ?thesis by (simp add: redraw_stop)
  next
    case True
    show ?thesis
    proof (cases "length (deck m) < 10")
      case True
      let ?m1 = "shuffleDeck rnd (initializeDeck m)"
      have dc: "dealCard rnd m = Some (last (deck ?m1), ?m1\<lparr>deck := butlast (deck ?m1)\<rparr>)"
        using True by (simp add: dealCard_Some)
      have "\<exists>x \<in> set (drop 9 (deck (?m1\<lparr>deck := butlast (deck ?m1)\<rparr>))). \<not> is_ten x"
        using fresh_deck_has_other [of rnd m] by simp
      then obtain r where
        "redraw rnd dh (last (deck ?m1)) (?m1\<lparr>deck := butlast (deck ?m1)\<rparr>) = Some r"
        using redraw_finds by blast
      then show ?thesis
        by (subst redraw.simps) (simp add: dc)
    next
      case False
      then have ne: "deck m \<noteq> []" by auto
      have dc: "dealCard rnd m = Some (last (deck m), m\<lparr>deck := butlast (deck m)\<rparr>)"
        using False by (simp add: dealCard_Some)
      have "length (deck (m\<lparr>deck := butlast (deck m)\<rparr>)) < length (deck m)"
        using ne by simp
      then obtain r where
        "redraw rnd dh (last (deck m)) (m\<lparr>deck := butlast (deck m)\<rparr>) = Some r"
        using less.hyps by blast
      then show ?thesis
        by (subst redraw.simps) (simp add: dc)
    qed
  qed
qed


lemma aces_low_snoc: "aces_low cs + 1 \<le> aces_low (cs @ [c])"
  by (cases "rank c") (simp_all add: aces_low_def aces_high_def ace_count_def)

lemma value_hand_lower: "aces_low (cards h) \<le> value_hand (calculateValue h)"
  using reduced_bounds [of "cards h"] by (simp add: calculateValue_eq aces_low_def)

lemma dealer_play_total_aux: "\<exists>r. dealer_play rnd (calculateValue h) m = Some r"
proof (induction "nat (17 - aces_low (cards h))" arbitrary: h m rule: less_induct)
  case less
  let ?h = "calculateValue h"
  show ?case
  proof (cases "value_hand ?h < 17 \<and> \<not> isBust ?h")
    case False
    then show ?thesis
      by (subst dealer_play.simps) auto
  next
    case True
    obtain c m' where dc: "dealCard rnd m = Some (c, m')"
      using dealCard_Some by blast
    let ?h' = "?h\<lparr>cards := cards ?h @ [c]\<rparr>"
    have cs: "cards ?h' = cards h @ [c]"
      by (simp add: calculateValue_eq)
    have "aces_low (cards h) < 17"
      using True value_hand_lower [of h] by simp
    moreover have "aces_low (cards h) + 1 \<le> aces_low (cards ?h')"
      unfolding cs by (rule aces_low_snoc)
    ultimately have "nat (17 - aces_low (cards ?h')) < nat (17 - aces_low (cards h))"
      by simp
    then obtain r where "dealer_play rnd (calculateValue ?h') m' = Some r"
      using less.hyps by blast
    then have "dealer_play rnd (addCard ?h c) m' = Some r"
      by (simp add: addCard_def)
    then show ?thesis
      using True by (subst dealer_play.simps) (simp add: dc)
  qed
qed

lemma dealer_play_total: "\<exists>r. dealer_play rnd (addCard h c) m = Some r"
  unfolding addCard_def by (rule dealer_play_total_aux)

lemma generateScenario_returns: "\<exists>sc m'. generateScenario rnd m = Some (sc, m')"
proof -
  obtain ph m2 where 1: "deal_player (shuffleDeck rnd m) = Some (ph, m2)"
    using deal_player_Some by blast
  obtain c1 m3 where 2: "dealCard rnd m2 = Some (c1, m3)"
    using dealCard_Some by blast
  obtain c2 m4 where 3: "dealCard rnd m3 = Some (c2, m4)"
    using dealCard_Some by blast
  obtain c m5 where 4: "redraw rnd (addCard new_Hand c1) c2 m4 = Some (c, m5)"
    using redraw_total by (metis surj_pair)
  obtain dh m6 where 5: "dealer_play rnd (addCard (addCard new_Hand c1) c) m5 = Some (dh, m6)"
    using dealer_play_total by (metis surj_pair)
  show ?thesis
    by (simp add: generateScenario_def 1 2 3 4 5)
qed


text \<open>
  What the redraw loop does guarantee: in a returned scenario the dealer's first two cards
  are never an ace followed by a ten-valued card.
\<close>

lemma redraw_guard:
  assumes "redraw rnd dh c m = Some r"
  shows "\<not> (getCardValue (cards dh ! 0) = 11 \<and> getCardValue (fst r) = 10)"
  by (rule redraw.raw_induct [where P = "\<lambda>rnd dh c m r.
        \<not> (getCardValue (cards dh ! 0) = 11 \<and> getCardValue (fst r) = 10)", OF _ assms])
    (auto split: if_splits simp: bind_eq_Some_conv)

lemma cards_addCard: "cards (addCard h c) = cards h @ [c]"
  by (simp add: addCard_def calculateValue_eq)

lemma dealer_play_appends:
  assumes "dealer_play rnd dh m = Some r"
  shows "\<exists>cs. cards (fst r) = cards dh @ cs"
  by (rule dealer_play.raw_induct [where P = "\<lambda>rnd dh m r. \<exists>cs. cards (fst r) = cards dh @ cs",
        OF _ assms])
    (fastforce split: if_splits simp: bind_eq_Some_conv cards_addCard)

lemma dealer_never_ace_then_ten:
  assumes "generateScenario rnd m = Some (sc, m')"
  shows "2 \<le> length (cards (dealerHand sc))
    \<and> \<not> (getCardValue (cards (dealerHand sc) ! 0) = 11
          \<and> getCardValue (cards (dealerHand sc) ! 1) = 10)"
proof -
  from assms obtain c1 c2 m4 c m5 dh and m6 :: ScenarioManager where
    rd: "redraw rnd (addCard new_Hand c1) c2 m4 = Some (c, m5)" and
    dp: "dealer_play rnd (addCard (addCard new_Hand c1) c) m5 = Some (dh, m6)" and
    sc: "dealerHand sc = dh"
    by (fastforce simp: generateScenario_def Let_def bind_eq_Some_conv new_BlackjackScenario_def)
  from dealer_play_appends [OF dp] obtain cs where "cards dh = [c1, c] @ cs"
    by (auto simp: cards_addCard new_Hand_def)
  then have c: "cards dh ! 0 = c1" "cards dh ! Suc 0 = c" "2 \<le> length (cards dh)"
    by simp_all
  from redraw_guard [OF rd] have "\<not> (getCardValue c1 = 11 \<and> getCardValue c = 10)"
    by (simp add: cards_addCard new_Hand_def)
  then show ?thesis by (simp add: sc c)
qed


text \<open>
  Claim C5 requires that the dealer never holds an ace and a ten-valued card as the first
  two cards, in either order. The redraw loop tests only \<open>cards[0].value === 11\<close> and
  \<open>secondCard.value === 10\<close>: a ten-valued first card followed by an ace passes. On a
  new \<open>ScenarioManager\<close> with the random source \<open>rnd_swap\<close> the dealer is dealt the
  king of spades and then the ace of spades, a two-card 21.
\<close>

theorem generateScenario_dealer_blackjack:
  "map_option (\<lambda>(sc, m'). (cards (playerHand sc), cards (dealerHand sc),
        value_hand (dealerHand sc), isBlackjack (dealerHand sc)))
     (generateScenario rnd_swap new_ScenarioManager)
   = Some ([\<lparr>suit = hearts, rank = RA\<rparr>, \<lparr>suit = hearts, rank = R10\<rparr>],
           [\<lparr>suit = spades, rank = RK\<rparr>, \<lparr>suit = spades, rank = RA\<rparr>], 21, True)"
  by code_simp

end
